theory Spec2Isabelle
  imports Main
begin

section \<open>Python values and object references\<close>

text \<open>
  The module \<^verbatim>\<open>kazoo/handlers/threading.py\<close> is dynamically typed. An object is
  identified by its reference; threads and \<^verbatim>\<open>AsyncResult\<close> instances are only
  ever compared by identity, so a reference is all that is kept of them.

  A value handed to \<^verbatim>\<open>set\<close> or \<^verbatim>\<open>set_exception\<close> is \<^verbatim>\<open>None\<close>, an object that the
  \<^verbatim>\<open>raise\<close> statement accepts (an exception instance, \<open>Exc\<close>) or any other object
  (\<open>Obj\<close>), for which \<^verbatim>\<open>raise\<close> itself fails with \<^verbatim>\<open>TypeError\<close>.
\<close>

type_synonym ref = nat

datatype pyobj = PyNone | Obj ref | Exc ref

text \<open>
  Callbacks are compared with \<^verbatim>\<open>==\<close>: \<^verbatim>\<open>callback in self._callbacks\<close> and
  \<^verbatim>\<open>self._callbacks.remove(callback)\<close> take an element for \<^verbatim>\<open>callback\<close> when it
  is the same object or compares equal to it. A callback is therefore kept as its
  reference together with the class of its \<^verbatim>\<open>==\<close>: a plain function is alone in its
  class, while every evaluation of \<^verbatim>\<open>obj.method\<close> builds a new bound method, and the
  bound methods of one function on one object compare equal. An object is the pair;
  a reference names one object, so a pair is the same object as itself only.
\<close>

datatype callable = Callable (ident: ref) (eq_key: nat)

text \<open>
  \<^verbatim>\<open>x == callback\<close> as the list operations evaluate it (identity first, then
  \<^verbatim>\<open>==\<close>), \<^verbatim>\<open>callback in xs\<close>, and \<^verbatim>\<open>xs.remove(callback)\<close>, which deletes the
  first element that compares equal.
\<close>

definition py_eq :: "callable \<Rightarrow> callable \<Rightarrow> bool" where
  "py_eq x callback = (x = callback \<or> eq_key x = eq_key callback)"

definition contains :: "callable list \<Rightarrow> callable \<Rightarrow> bool" where
  "contains xs callback = list_ex (\<lambda>x. py_eq x callback) xs"

fun remove_first :: "callable \<Rightarrow> callable list \<Rightarrow> callable list" where
  "remove_first callback [] = []"
| "remove_first callback (x # xs) =
     (if py_eq x callback then xs else x # remove_first callback xs)"

text \<open>
  The attribute \<^verbatim>\<open>_exception\<close> holds either the module-private sentinel
  \<^verbatim>\<open>_NONE = object()\<close> or a stored object. The sentinel is created once at import
  and is identical to nothing a caller supplies, hence a constructor of its own.
\<close>

datatype slot = NONE_sentinel | Stored pyobj

datatype error = TimeoutError | Raised pyobj | TypeError

section \<open>Closures, lane items and the handler\<close>

text \<open>
  The object given to \<^verbatim>\<open>dispatch_callback\<close> carries the attributes \<^verbatim>\<open>type\<close>,
  \<^verbatim>\<open>func\<close> and \<^verbatim>\<open>args\<close>.
\<close>

record Callback =
  type :: string
  func :: ref
  args :: "pyobj list"

text \<open>
  Every item put on a queue is a \<^verbatim>\<open>lambda\<close> or the sentinel \<^verbatim>\<open>_STOP\<close>. A Python
  closure captures the \<^emph>\<open>variable\<close> of the enclosing call, not the value the
  variable has when the \<^verbatim>\<open>lambda\<close> expression is evaluated: the body
  \<^verbatim>\<open>callback(self)\<close> reads \<^verbatim>\<open>callback\<close> when the lambda is called. So
  \<open>Completion_lambda c s\<close> records the cell \<open>c\<close> of the local variable
  \<^verbatim>\<open>callback\<close> of the call that built it, and the reference \<open>s\<close> of \<^verbatim>\<open>self\<close>
  (a variable that is bound once). \<open>Dispatch_lambda\<close> is the lambda of
  \<^verbatim>\<open>dispatch_callback\<close>, whose variable \<^verbatim>\<open>callback\<close> is a parameter that is never
  assigned again.
\<close>

datatype closure = Completion_lambda nat ref | Dispatch_lambda Callback

datatype item = STOP | Work closure

text \<open>What a lambda does when a worker calls it: one call of a callable.\<close>

datatype call = Call_callback callable ref | Call_func ref "pyobj list"

text \<open>
  The three queues are named after the attributes of the handler. A worker thread is
  bound to the queue it was created for.
\<close>

datatype lane = Completion_queue | Callback_queue | Session_queue

datatype thread = Thread lane

record handler =
  callback_queue :: "item list"
  session_queue :: "item list"
  completion_queue :: "item list"
  running :: bool
  workers :: "thread list"

text \<open>
  The state outside a single \<^verbatim>\<open>AsyncResult\<close>: its handler, the cells of the
  variables captured by the lambdas built so far (\<open>None\<close> is an unbound local), and
  the calls the worker threads have made, oldest first.
\<close>

record world =
  handler :: handler
  cells :: "callable option list"
  executed :: "call list"

record AsyncResult =
  self_ref :: ref
  ar_value :: pyobj
  ar_exception :: slot
  ar_callbacks :: "callable list"

text \<open>\<^verbatim>\<open>SequentialThreadingHandler.__init__\<close> and \<^verbatim>\<open>AsyncResult.__init__\<close>.\<close>

definition init_handler :: handler where
  "init_handler =
     \<lparr>callback_queue = [], session_queue = [], completion_queue = [],
      running = False, workers = []\<rparr>"

definition init_world :: world where
  "init_world = \<lparr>handler = init_handler, cells = [], executed = []\<rparr>"

definition init_AsyncResult :: "ref \<Rightarrow> AsyncResult" where
  "init_AsyncResult r =
     \<lparr>self_ref = r, ar_value = PyNone, ar_exception = NONE_sentinel, ar_callbacks = []\<rparr>"

section \<open>AsyncResult: the readers\<close>

definition ready :: "AsyncResult \<Rightarrow> bool" where
  "ready self = (ar_exception self \<noteq> NONE_sentinel)"

definition successful :: "AsyncResult \<Rightarrow> bool" where
  "successful self = (ar_exception self = Stored PyNone)"

text \<open>The property \<^verbatim>\<open>exception\<close>: a function that falls off its end returns \<^verbatim>\<open>None\<close>.\<close>

definition exception :: "AsyncResult \<Rightarrow> pyobj" where
  "exception self =
     (case ar_exception self of NONE_sentinel \<Rightarrow> PyNone | Stored e \<Rightarrow> e)"

section \<open>AsyncResult: storing the outcome\<close>

text \<open>\<^verbatim>\<open>completion_queue.put(x)\<close> on the unbounded queue of the handler.\<close>

definition put_completion :: "item \<Rightarrow> world \<Rightarrow> world" where
  "put_completion x w =
     w\<lparr>handler := (handler w)\<lparr>completion_queue := completion_queue (handler w) @ [x]\<rparr>\<rparr>"

text \<open>
  The loop \<^verbatim>\<open>for callback in self._callbacks: put(lambda: callback(self))\<close> of
  \<^verbatim>\<open>set\<close> and \<^verbatim>\<open>set_exception\<close>. Each round assigns the loop variable, which
  lives in cell \<open>c\<close> of the running call, and puts a lambda that refers to that cell.
\<close>

fun put_callbacks :: "nat \<Rightarrow> ref \<Rightarrow> callable list \<Rightarrow> world \<Rightarrow> world" where
  "put_callbacks c s [] w = w"
| "put_callbacks c s (callback # rest) w =
     put_callbacks c s rest
       (put_completion (Work (Completion_lambda c s))
          (w\<lparr>cells := (cells w)[c := Some callback]\<rparr>))"

text \<open>
  A call of \<^verbatim>\<open>set\<close> or \<^verbatim>\<open>set_exception\<close> has a fresh cell for its local
  \<^verbatim>\<open>callback\<close>, unbound until the loop assigns it.
\<close>

definition set_value :: "pyobj \<Rightarrow> AsyncResult \<Rightarrow> world \<Rightarrow> AsyncResult \<times> world" where
  "set_value v self w =
     (let self' = self\<lparr>ar_value := v, ar_exception := Stored PyNone\<rparr>;
          c = length (cells w)
      in (self', put_callbacks c (self_ref self') (ar_callbacks self')
                   (w\<lparr>cells := cells w @ [None]\<rparr>)))"

definition set_exception :: "pyobj \<Rightarrow> AsyncResult \<Rightarrow> world \<Rightarrow> AsyncResult \<times> world" where
  "set_exception e self w =
     (let self' = self\<lparr>ar_exception := Stored e\<rparr>;
          c = length (cells w)
      in (self', put_callbacks c (self_ref self') (ar_callbacks self')
                   (w\<lparr>cells := cells w @ [None]\<rparr>)))"

section \<open>AsyncResult: registering callbacks\<close>

text \<open>
  In \<^verbatim>\<open>rawlink\<close> the captured variable \<^verbatim>\<open>callback\<close> is the parameter, bound at the
  call and never assigned again.
\<close>

definition rawlink :: "callable \<Rightarrow> AsyncResult \<Rightarrow> world \<Rightarrow> AsyncResult \<times> world" where
  "rawlink callback self w =
     (if ready self then
        (self, put_completion (Work (Completion_lambda (length (cells w)) (self_ref self)))
                 (w\<lparr>cells := cells w @ [Some callback]\<rparr>))
      else if \<not> contains (ar_callbacks self) callback
        then (self\<lparr>ar_callbacks := ar_callbacks self @ [callback]\<rparr>, w)
      else (self, w))"

definition unlink :: "callable \<Rightarrow> AsyncResult \<Rightarrow> world \<Rightarrow> AsyncResult \<times> world" where
  "unlink callback self w =
     (if ready self then (self, w)
      else if contains (ar_callbacks self) callback
        then (self\<lparr>ar_callbacks := remove_first callback (ar_callbacks self)\<rparr>, w)
      else (self, w))"

section \<open>AsyncResult: get and wait\<close>

text \<open>
  \<^verbatim>\<open>get\<close> and \<^verbatim>\<open>wait\<close> may block in \<^verbatim>\<open>self._condition.wait(timeout)\<close>. While the
  caller is blocked the lock is released and other threads change the object, so
  a call is either finished (\<open>Return\<close>) or suspended in the condition variable with
  the given timeout (\<open>Condition_wait\<close>), to be continued on the state of the object it
  finds when it wakes up holding the lock again.
\<close>

datatype ('t, 'a) blocking = Return 'a | Condition_wait "'t option" "AsyncResult \<Rightarrow> 'a"

text \<open>
  The statements \<^verbatim>\<open>if self._exception is None: return self.value\<close> and
  \<^verbatim>\<open>raise self._exception\<close>, reached when the slot is not the sentinel.
\<close>

definition outcome :: "AsyncResult \<Rightarrow> error + pyobj" where
  "outcome self =
     (case ar_exception self of
        Stored PyNone \<Rightarrow> Inr (ar_value self)
      | Stored (Exc r) \<Rightarrow> Inl (Raised (Exc r))
      | Stored (Obj r) \<Rightarrow> Inl TypeError
      | NONE_sentinel \<Rightarrow> Inl TimeoutError)"

definition get :: "AsyncResult \<Rightarrow> bool \<Rightarrow> 't option \<Rightarrow> ('t, error + pyobj) blocking" where
  "get self block timeout =
     (if ar_exception self \<noteq> NONE_sentinel then Return (outcome self)
      else if block then
        Condition_wait timeout
          (\<lambda>self'. if ar_exception self' \<noteq> NONE_sentinel then outcome self'
                    else Inl TimeoutError)
      else Return (Inl TimeoutError))"

definition get_nowait :: "AsyncResult \<Rightarrow> ('t, error + pyobj) blocking" where
  "get_nowait self = get self False None"

text \<open>
  \<^verbatim>\<open>wait\<close> enters the condition variable first and reads \<^verbatim>\<open>_exception\<close> after it.
\<close>

definition wait :: "AsyncResult \<Rightarrow> 't option \<Rightarrow> ('t, bool) blocking" where
  "wait self timeout =
     Condition_wait timeout (\<lambda>self'. ar_exception self' \<noteq> NONE_sentinel)"

text \<open>
  What the rest of the program does while a caller is suspended:
  whether some thread calls \<^verbatim>\<open>notify_all\<close> on the condition (only \<^verbatim>\<open>set\<close> and
  \<^verbatim>\<open>set_exception\<close> do), and the state of the object when the caller runs again.
  \<^verbatim>\<open>Condition.wait\<close> comes back on a notification or when its timeout has passed;
  with no timeout and no notification it never does, and the call has no result.
\<close>

record environment =
  notified :: bool
  at_wakeup :: AsyncResult

fun resume :: "('t, 'a) blocking \<Rightarrow> environment \<Rightarrow> 'a option" where
  "resume (Return a) env = Some a"
| "resume (Condition_wait timeout k) env =
     (if notified env \<or> timeout \<noteq> None then Some (k (at_wakeup env)) else None)"

section \<open>SequentialThreadingHandler\<close>

text \<open>\<^verbatim>\<open>queue.put(x)\<close> on one of the three queues of the handler.\<close>

fun put :: "lane \<Rightarrow> item \<Rightarrow> handler \<Rightarrow> handler" where
  "put Completion_queue x h = h\<lparr>completion_queue := completion_queue h @ [x]\<rparr>"
| "put Callback_queue x h = h\<lparr>callback_queue := callback_queue h @ [x]\<rparr>"
| "put Session_queue x h = h\<lparr>session_queue := session_queue h @ [x]\<rparr>"

fun queue_of :: "lane \<Rightarrow> handler \<Rightarrow> item list" where
  "queue_of Completion_queue h = completion_queue h"
| "queue_of Callback_queue h = callback_queue h"
| "queue_of Session_queue h = session_queue h"

text \<open>
  \<^verbatim>\<open>_create_thread_worker(queue)\<close> builds a daemon thread around the loop
  \<open>thread_worker\<close> below, starts it and returns it.
\<close>

definition create_thread_worker :: "lane \<Rightarrow> thread" where
  "create_thread_worker queue = Thread queue"

text \<open>The loop of \<^verbatim>\<open>start\<close> over the tuple of the three queues.\<close>

fun spawn_workers :: "lane list \<Rightarrow> handler \<Rightarrow> handler" where
  "spawn_workers [] h = h"
| "spawn_workers (queue # rest) h =
     spawn_workers rest (h\<lparr>workers := workers h @ [create_thread_worker queue]\<rparr>)"

definition start :: "handler \<Rightarrow> handler" where
  "start h =
     (if running h then h
      else (spawn_workers [Completion_queue, Callback_queue, Session_queue] h)
             \<lparr>running := True\<rparr>)"

text \<open>
  \<^verbatim>\<open>stop\<close> is observed through the handler it leaves and through what it does to
  the queues and threads on the way, in order.
\<close>

datatype event = Put lane item | Join thread

text \<open>The loop \<^verbatim>\<open>for queue in (...): queue.put(_STOP)\<close>.\<close>

fun put_stop :: "lane list \<Rightarrow> handler \<times> event list \<Rightarrow> handler \<times> event list" where
  "put_stop [] (h, evs) = (h, evs)"
| "put_stop (queue # rest) (h, evs) =
     put_stop rest (put queue STOP h, evs @ [Put queue STOP])"

text \<open>
  The loop \<^verbatim>\<open>while self._workers: worker = self._workers.pop(); worker.join()\<close>:
  \<^verbatim>\<open>list.pop()\<close> takes the last element.
\<close>

function join_workers :: "handler \<times> event list \<Rightarrow> handler \<times> event list" where
  "join_workers (h, evs) =
     (if workers h = [] then (h, evs)
      else join_workers (h\<lparr>workers := butlast (workers h)\<rparr>,
                         evs @ [Join (last (workers h))]))"
  by pat_completeness auto
termination
  by (relation "measure (\<lambda>(h, evs). length (workers h))") auto

definition stop :: "handler \<Rightarrow> handler \<times> event list" where
  "stop h =
     (if \<not> running h then (h, [])
      else
        (let h1 = h\<lparr>running := False\<rparr>;
             (h2, evs2) = put_stop [Completion_queue, Callback_queue, Session_queue] (h1, []);
             h3 = h2\<lparr>workers := rev (workers h2)\<rparr>;
             (h4, evs4) = join_workers (h3, evs2)
         in (h4\<lparr>callback_queue := [], session_queue := [], completion_queue := []\<rparr>,
             evs4)))"

definition dispatch_callback :: "Callback \<Rightarrow> handler \<Rightarrow> handler" where
  "dispatch_callback callback h =
     (if type callback = ''session''
      then put Session_queue (Work (Dispatch_lambda callback)) h
      else put Callback_queue (Work (Dispatch_lambda callback)) h)"

section \<open>The worker loop\<close>

text \<open>
  Calling a lambda. \<open>Completion_lambda c s\<close> reads its captured variable now; a
  variable that was never bound raises \<^verbatim>\<open>NameError\<close> (\<open>None\<close>).
\<close>

fun call_of :: "callable option list \<Rightarrow> closure \<Rightarrow> call option" where
  "call_of cs (Completion_lambda c s) =
     (if c < length cs
      then (case cs ! c of None \<Rightarrow> None | Some callback \<Rightarrow> Some (Call_callback callback s))
      else None)"
| "call_of cs (Dispatch_lambda callback) = Some (Call_func (func callback) (args callback))"

text \<open>
  What the called code does is outside this module: how a call ends is a parameter
  of the loop. A call that raises \<^verbatim>\<open>Queue.Empty\<close> is caught by the loop, which goes
  on; any other exception leaves the loop and ends the thread. Called code is taken
  not to touch the handler or the cells. \<^verbatim>\<open>queue.task_done()\<close> only counts the items
  taken, a count that nothing in the module reads.
\<close>

datatype ending = Returns | Raises_Empty | Raises

datatype exit = Break | Died | Blocked_in_get

text \<open>
  \<^verbatim>\<open>thread_worker\<close> on the content of its queue: the calls it makes, what it leaves
  on the queue, and how it stops taking items (on an empty queue \<^verbatim>\<open>queue.get()\<close>
  blocks).
\<close>

fun thread_worker ::
  "(call \<Rightarrow> ending) \<Rightarrow> callable option list \<Rightarrow> item list \<Rightarrow> call list \<times> item list \<times> exit" where
  "thread_worker behaviour cs [] = ([], [], Blocked_in_get)"
| "thread_worker behaviour cs (STOP # queue) = ([], queue, Break)"
| "thread_worker behaviour cs (Work f # queue) =
     (case call_of cs f of
        None \<Rightarrow> ([], queue, Died)
      | Some c \<Rightarrow>
          (case behaviour c of
             Raises \<Rightarrow> ([c], queue, Died)
           | _ \<Rightarrow> (case thread_worker behaviour cs queue of
                     (calls, queue', e) \<Rightarrow> (c # calls, queue', e))))"

text \<open>The worker of one queue runs on the world as it stands.\<close>

fun set_queue :: "lane \<Rightarrow> item list \<Rightarrow> handler \<Rightarrow> handler" where
  "set_queue Completion_queue q h = h\<lparr>completion_queue := q\<rparr>"
| "set_queue Callback_queue q h = h\<lparr>callback_queue := q\<rparr>"
| "set_queue Session_queue q h = h\<lparr>session_queue := q\<rparr>"

definition run_worker :: "(call \<Rightarrow> ending) \<Rightarrow> lane \<Rightarrow> world \<Rightarrow> world \<times> exit" where
  "run_worker behaviour queue w =
     (case thread_worker behaviour (cells w) (queue_of queue (handler w)) of
        (calls, queue', e) \<Rightarrow>
          (w\<lparr>handler := set_queue queue queue' (handler w),
             executed := executed w @ calls\<rparr>, e))"

section \<open>Histories of calls on one AsyncResult\<close>

datatype op = Set pyobj | Set_exception pyobj | Rawlink callable | Unlink callable

fun apply_op :: "op \<Rightarrow> AsyncResult \<times> world \<Rightarrow> AsyncResult \<times> world" where
  "apply_op (Set v) (self, w) = set_value v self w"
| "apply_op (Set_exception e) (self, w) = set_exception e self w"
| "apply_op (Rawlink callback) (self, w) = rawlink callback self w"
| "apply_op (Unlink callback) (self, w) = unlink callback self w"

definition run_ops :: "op list \<Rightarrow> AsyncResult \<times> world \<Rightarrow> AsyncResult \<times> world" where
  "run_ops ops s = fold apply_op ops s"

text \<open>
  Calls made later on any \<^verbatim>\<open>AsyncResult\<close> of the handler, each given with the state
  of the object it is made on, as they act on the world.
\<close>

definition later_calls :: "(op \<times> AsyncResult) list \<Rightarrow> world \<Rightarrow> world" where
  "later_calls steps w = fold (\<lambda>(x, s) w'. snd (apply_op x (s, w'))) steps w"

fun is_resolution :: "op \<Rightarrow> bool" where
  "is_resolution (Set v) = True"
| "is_resolution (Set_exception e) = True"
| "is_resolution (Rawlink callback) = False"
| "is_resolution (Unlink callback) = False"

text \<open>The last \<^verbatim>\<open>set\<close> or \<^verbatim>\<open>set_exception\<close> of a history, if there is one.\<close>

definition last_resolution :: "op list \<Rightarrow> op option" where
  "last_resolution ops =
     (case rev (filter is_resolution ops) of [] \<Rightarrow> None | r # rs \<Rightarrow> Some r)"

text \<open>What a \<^verbatim>\<open>set\<close> or \<^verbatim>\<open>set_exception\<close> leaves in \<^verbatim>\<open>_exception\<close>.\<close>

fun stored_by :: "op \<Rightarrow> slot" where
  "stored_by (Set v) = Stored PyNone"
| "stored_by (Set_exception e) = Stored e"
| "stored_by (Rawlink callback) = NONE_sentinel"
| "stored_by (Unlink callback) = NONE_sentinel"

section \<open>Observations used in the statements\<close>

text \<open>
  The object at the end of the wait window of \<^verbatim>\<open>get\<close>: the window is empty when the
  object is ready at the call or \<^verbatim>\<open>block\<close> is false, and ends at the wake-up
  otherwise.
\<close>

definition window_end :: "AsyncResult \<Rightarrow> bool \<Rightarrow> environment \<Rightarrow> AsyncResult" where
  "window_end self block env = (if ready self \<or> \<not> block then self else at_wakeup env)"

text \<open>The threads joined by \<^verbatim>\<open>stop\<close>, first join first.\<close>

fun joined :: "event list \<Rightarrow> thread list" where
  "joined [] = []"
| "joined (Join t # evs) = t # joined evs"
| "joined (Put queue x # evs) = joined evs"

section \<open>Auxiliary facts\<close>

lemmas eval_defs =
  run_ops_def set_value_def set_exception_def rawlink_def unlink_def ready_def successful_def
  exception_def outcome_def init_AsyncResult_def init_world_def init_handler_def
  put_completion_def last_resolution_def contains_def py_eq_def Let_def

declare join_workers.simps [simp del]

subsection \<open>Fields written by the operations of an AsyncResult\<close>

lemma set_value_fields:
  "ar_value (fst (set_value v self w)) = v"
  "ar_exception (fst (set_value v self w)) = Stored PyNone"
  "ar_callbacks (fst (set_value v self w)) = ar_callbacks self"
  "self_ref (fst (set_value v self w)) = self_ref self"
  by (simp_all add: set_value_def Let_def)

lemma set_exception_fields:
  "ar_value (fst (set_exception e self w)) = ar_value self"
  "ar_exception (fst (set_exception e self w)) = Stored e"
  "ar_callbacks (fst (set_exception e self w)) = ar_callbacks self"
  "self_ref (fst (set_exception e self w)) = self_ref self"
  by (simp_all add: set_exception_def Let_def)

lemma rawlink_fields:
  "ar_value (fst (rawlink c self w)) = ar_value self"
  "ar_exception (fst (rawlink c self w)) = ar_exception self"
  "self_ref (fst (rawlink c self w)) = self_ref self"
  by (simp_all add: rawlink_def)

lemma unlink_fields:
  "ar_value (fst (unlink c self w)) = ar_value self"
  "ar_exception (fst (unlink c self w)) = ar_exception self"
  "self_ref (fst (unlink c self w)) = self_ref self"
  by (simp_all add: unlink_def)

subsection \<open>Histories\<close>

lemma run_ops_Nil: "run_ops [] s = s"
  by (simp add: run_ops_def)

lemma run_ops_snoc: "run_ops (ops @ [x]) s = apply_op x (run_ops ops s)"
  by (simp add: run_ops_def)

lemma last_resolution_Nil: "last_resolution [] = None"
  by (simp add: last_resolution_def)

lemma last_resolution_snoc:
  "last_resolution (ops @ [x]) = (if is_resolution x then Some x else last_resolution ops)"
  by (simp add: last_resolution_def)

lemma last_resolution_mem:
  "last_resolution ops = Some x \<Longrightarrow> x \<in> set ops \<and> is_resolution x"
proof (induction ops rule: rev_induct)
  case Nil
  then show ?case by (simp add: last_resolution_Nil)
next
  case (snoc y ops)
  then show ?case by (auto simp: last_resolution_snoc split: if_splits)
qed

lemma last_resolution_None:
  "\<forall>x\<in>set ops. \<not> is_resolution x \<Longrightarrow> last_resolution ops = None"
  by (induction ops rule: rev_induct) (simp_all add: last_resolution_Nil last_resolution_snoc)

lemma apply_op_exception:
  "ar_exception (fst (apply_op x s)) =
     (if is_resolution x then stored_by x else ar_exception (fst s))"
  by (cases x; cases s)
     (simp_all add: set_value_fields set_exception_fields rawlink_fields unlink_fields)

lemma apply_op_value:
  "\<not> is_resolution x \<Longrightarrow> ar_value (fst (apply_op x s)) = ar_value (fst s)"
  by (cases x; cases s) (simp_all add: rawlink_fields unlink_fields)

text \<open>The slot after a history is decided by the last resolution alone.\<close>

lemma run_ops_exception:
  "ar_exception (fst (run_ops ops s)) =
     (case last_resolution ops of None \<Rightarrow> ar_exception (fst s) | Some x \<Rightarrow> stored_by x)"
proof (induction ops rule: rev_induct)
  case Nil
  show ?case by (simp add: run_ops_Nil last_resolution_Nil)
next
  case (snoc x ops)
  show ?case
    by (simp add: run_ops_snoc last_resolution_snoc apply_op_exception snoc.IH)
qed

lemma run_ops_value:
  "\<forall>x\<in>set ops. \<not> is_resolution x \<Longrightarrow> ar_value (fst (run_ops ops s)) = ar_value (fst s)"
proof (induction ops rule: rev_induct)
  case Nil
  show ?case by (simp add: run_ops_Nil)
next
  case (snoc x ops)
  then show ?case by (simp add: run_ops_snoc apply_op_value)
qed

subsection \<open>The handler\<close>

lemma spawn_workers_fields:
  "workers (spawn_workers qs h) = workers h @ map create_thread_worker qs"
  "running (spawn_workers qs h) = running h"
  "callback_queue (spawn_workers qs h) = callback_queue h"
  "session_queue (spawn_workers qs h) = session_queue h"
  "completion_queue (spawn_workers qs h) = completion_queue h"
  by (induction qs arbitrary: h) simp_all

lemma start_workers:
  "\<not> running h \<Longrightarrow>
     workers (start h)
       = workers h @ [Thread Completion_queue, Thread Callback_queue, Thread Session_queue]"
  by (simp add: start_def spawn_workers_fields create_thread_worker_def)

lemma start_running: "running (start h)"
  by (simp add: start_def)

text \<open>
  The loop pops from the end, so it joins the threads of the list it is given last
  to first.
\<close>

lemma join_workers_eq:
  "join_workers (h, evs) = (h\<lparr>workers := []\<rparr>, evs @ map Join (rev (workers h)))"
proof (induction "(h, evs)" arbitrary: h evs rule: join_workers.induct)
  case (1 h evs)
  show ?case
  proof (cases "workers h = []")
    case True
    then show ?thesis by (simp add: join_workers.simps [of h evs])
  next
    case False
    then obtain ws t where ws: "workers h = ws @ [t]"
      by (metis rev_exhaust)
    have "join_workers (h, evs)
            = join_workers (h\<lparr>workers := butlast (workers h)\<rparr>, evs @ [Join (last (workers h))])"
      using False by (simp add: join_workers.simps [of h evs])
    also have "\<dots> = (h\<lparr>workers := butlast (workers h)\<rparr>\<lparr>workers := []\<rparr>,
                      (evs @ [Join (last (workers h))])
                        @ map Join (rev (workers (h\<lparr>workers := butlast (workers h)\<rparr>))))"
      using "1.hyps" [OF False] .
    also have "\<dots> = (h\<lparr>workers := []\<rparr>, evs @ map Join (rev (workers h)))"
      by (simp add: ws)
    finally show ?thesis .
  qed
qed

lemma stop_running_eq:
  "running h \<Longrightarrow>
     stop h =
       (h\<lparr>callback_queue := [], session_queue := [], completion_queue := [],
          running := False, workers := []\<rparr>,
        [Put Completion_queue STOP, Put Callback_queue STOP, Put Session_queue STOP]
          @ map Join (workers h))"
  by (simp add: stop_def join_workers_eq)

text \<open>A worker never takes an item from behind the first stop marker of its queue.\<close>

lemma thread_worker_behind_stop:
  "STOP \<notin> set q \<Longrightarrow>
     fst (thread_worker behaviour cs (q @ STOP # late)) = fst (thread_worker behaviour cs q)
     \<and> snd (snd (thread_worker behaviour cs (q @ STOP # late))) \<noteq> Blocked_in_get
     \<and> (snd (snd (thread_worker behaviour cs (q @ STOP # late))) = Break \<longrightarrow>
          fst (snd (thread_worker behaviour cs (q @ STOP # late))) = late)"
proof (induction q)
  case Nil
  show ?case by simp
next
  case (Cons x q)
  then obtain f where x: "x = Work f" by (cases x) auto
  from Cons have IH:
    "fst (thread_worker behaviour cs (q @ STOP # late)) = fst (thread_worker behaviour cs q)
     \<and> snd (snd (thread_worker behaviour cs (q @ STOP # late))) \<noteq> Blocked_in_get
     \<and> (snd (snd (thread_worker behaviour cs (q @ STOP # late))) = Break \<longrightarrow>
          fst (snd (thread_worker behaviour cs (q @ STOP # late))) = late)"
    by simp
  show ?case
    using IH by (auto simp: x split: option.splits ending.splits prod.splits)
qed

subsection \<open>Cells of the closures\<close>

text \<open>
  A call writes only the cell it has made for itself, so the cells that exist keep
  their content under every later call.
\<close>

lemma put_callbacks_cells:
  "length (cells (put_callbacks c s cbs w)) = length (cells w)"
  "i \<noteq> c \<Longrightarrow> cells (put_callbacks c s cbs w) ! i = cells w ! i"
  by (induction cbs arbitrary: w) (simp_all add: put_completion_def)

lemma apply_op_cells:
  "i < length (cells w) \<Longrightarrow>
     i < length (cells (snd (apply_op x (s, w))))
     \<and> cells (snd (apply_op x (s, w))) ! i = cells w ! i"
  by (cases x)
     (simp_all add: set_value_def set_exception_def rawlink_def unlink_def Let_def
        put_callbacks_cells put_completion_def nth_append)

lemma later_calls_cells:
  "i < length (cells w) \<Longrightarrow>
     i < length (cells (later_calls steps w))
     \<and> cells (later_calls steps w) ! i = cells w ! i"
proof (induction steps arbitrary: w)
  case Nil
  then show ?case by (simp add: later_calls_def)
next
  case (Cons step steps)
  obtain x s where step: "step = (x, s)" by (cases step)
  have unfold: "later_calls (step # steps) w = later_calls steps (snd (apply_op x (s, w)))"
    by (simp add: later_calls_def step)
  from apply_op_cells [OF Cons.prems, of x s]
  have a: "i < length (cells (snd (apply_op x (s, w))))"
    and b: "cells (snd (apply_op x (s, w))) ! i = cells w ! i"
    by simp_all
  from Cons.IH [OF a] b unfold show ?case by simp
qed

lemma contains_snoc: "contains (xs @ [c]) c'  \<longleftrightarrow> contains xs c' \<or> py_eq c c'"
  by (auto simp: contains_def)

section \<open>Callbacks run after a resolution\<close>

text \<open>
  Claim C1 says that \<^verbatim>\<open>set\<close> and \<^verbatim>\<open>set_exception\<close> put one invocation per registered
  callback on the completion queue, each calling that callback with the
  \<^verbatim>\<open>AsyncResult\<close>, so that every registered callback runs exactly once. The code
  puts one lambda per callback, but all lambdas of one call share the loop variable
  \<^verbatim>\<open>callback\<close>: run after the loop, each of them calls the callback registered last.
  With two unequal callbacks \<open>1\<close> and \<open>2\<close> registered on the pending object \<open>0\<close>, then a
  \<^verbatim>\<open>set\<close> (or a \<^verbatim>\<open>set_exception\<close>), then \<^verbatim>\<open>start\<close>, the completion worker calls
  callback \<open>2\<close> twice and callback \<open>1\<close> never.
\<close>

theorem set_calls_last_callback:
  "ar_callbacks (fst (run_ops [Rawlink (Callable 1 1), Rawlink (Callable 2 2)] (init_AsyncResult 0, init_world)))
       = [Callable 1 1, Callable 2 2]
   \<and> completion_queue (handler (snd (run_ops [Rawlink (Callable 1 1), Rawlink (Callable 2 2), Set (Obj 7)]
        (init_AsyncResult 0, init_world))))
       = [Work (Completion_lambda 0 0), Work (Completion_lambda 0 0)]
   \<and> executed (fst (run_worker (\<lambda>c. Returns) Completion_queue
        ((snd (run_ops [Rawlink (Callable 1 1), Rawlink (Callable 2 2), Set (Obj 7)] (init_AsyncResult 0, init_world)))
           \<lparr>handler := start (handler (snd (run_ops [Rawlink (Callable 1 1), Rawlink (Callable 2 2), Set (Obj 7)]
                (init_AsyncResult 0, init_world))))\<rparr>)))
       = [Call_callback (Callable 2 2) 0, Call_callback (Callable 2 2) 0]
   \<and> executed (fst (run_worker (\<lambda>c. Returns) Completion_queue
        ((snd (run_ops [Rawlink (Callable 1 1), Rawlink (Callable 2 2), Set_exception (Exc 3)] (init_AsyncResult 0, init_world)))
           \<lparr>handler := start (handler (snd (run_ops [Rawlink (Callable 1 1), Rawlink (Callable 2 2), Set_exception (Exc 3)]
                (init_AsyncResult 0, init_world))))\<rparr>)))
       = [Call_callback (Callable 2 2) 0, Call_callback (Callable 2 2) 0]"
  by (simp add: eval_defs run_worker_def start_def create_thread_worker_def)

section \<open>The stored outcome\<close>

text \<open>
  Claim C2 as stated: once the object is ready, no later operation changes the stored
  value or the stored exception. \<^verbatim>\<open>set\<close> and \<^verbatim>\<open>set_exception\<close> have no check of
  \<^verbatim>\<open>ready()\<close>: on an object resolved with \<open>Obj 1\<close>, a second \<^verbatim>\<open>set\<close> replaces the
  value and a \<^verbatim>\<open>set_exception\<close> replaces the stored exception.
\<close>

theorem later_set_overwrites_counterexample:
  "ready (fst (set_value (Obj 1) (init_AsyncResult 0) init_world))
   \<and> ar_value (fst (set_value (Obj 2)
         (fst (set_value (Obj 1) (init_AsyncResult 0) init_world)) init_world))
       \<noteq> ar_value (fst (set_value (Obj 1) (init_AsyncResult 0) init_world))
   \<and> ar_exception (fst (set_exception (Exc 3)
         (fst (set_value (Obj 1) (init_AsyncResult 0) init_world)) init_world))
       \<noteq> ar_exception (fst (set_value (Obj 1) (init_AsyncResult 0) init_world))"
  by (simp add: ready_def set_value_fields set_exception_fields)

text \<open>
  Claim C2, amended: once the object is ready, any sequence of operations without
  \<^verbatim>\<open>set\<close> and \<^verbatim>\<open>set_exception\<close> (\<^verbatim>\<open>rawlink\<close> and \<^verbatim>\<open>unlink\<close>; the readers assign no
  attribute) leaves the stored value and the stored exception as they are, so
  \<^verbatim>\<open>get\<close> gives the same outcome before and after; a later \<^verbatim>\<open>set(v)\<close> stores \<open>v\<close> and
  \<^verbatim>\<open>None\<close> as the exception, and a later \<^verbatim>\<open>set_exception(e)\<close> stores \<open>e\<close> and keeps
  the value.
\<close>

theorem outcome_stable_without_resolution:
  "ready self \<Longrightarrow> \<forall>x\<in>set ops. \<not> is_resolution x \<Longrightarrow>
     ar_value (fst (run_ops ops (self, w))) = ar_value self
     \<and> ar_exception (fst (run_ops ops (self, w))) = ar_exception self
     \<and> outcome (fst (run_ops ops (self, w))) = outcome self
     \<and> get (fst (run_ops ops (self, w))) block (timeout :: 't option) = get self block timeout
     \<and> ar_value (fst (set_value v self w)) = v
     \<and> ar_exception (fst (set_value v self w)) = Stored PyNone
     \<and> ar_value (fst (set_exception e self w)) = ar_value self
     \<and> ar_exception (fst (set_exception e self w)) = Stored e"
proof -
  assume nores: "\<forall>x\<in>set ops. \<not> is_resolution x"
  have v: "ar_value (fst (run_ops ops (self, w))) = ar_value self"
    using run_ops_value [OF nores, of "(self, w)"] by simp
  have e: "ar_exception (fst (run_ops ops (self, w))) = ar_exception self"
    by (simp add: run_ops_exception last_resolution_None [OF nores])
  have out: "outcome (fst (run_ops ops (self, w))) = outcome self"
    by (simp only: outcome_def v e)
  have g: "get (fst (run_ops ops (self, w))) block timeout = get self block timeout"
    by (simp add: get_def e out)
  show ?thesis
    by (simp add: v e out g set_value_fields set_exception_fields)
qed

theorem outcome_stable_without_resolution_witness:
  "ready (fst (set_value (Obj 1) (init_AsyncResult 0) init_world))
   \<and> ar_value (fst (run_ops [Rawlink (Callable 4 4), Unlink (Callable 4 4)]
        (fst (set_value (Obj 1) (init_AsyncResult 0) init_world), init_world))) = Obj 1
   \<and> ar_exception (fst (run_ops [Rawlink (Callable 4 4), Unlink (Callable 4 4)]
        (fst (set_value (Obj 1) (init_AsyncResult 0) init_world), init_world))) = Stored PyNone"
proof -
  have r: "ready (fst (set_value (Obj 1) (init_AsyncResult 0) init_world))"
    by (simp add: ready_def set_value_fields)
  have n: "\<forall>x\<in>set [Rawlink (Callable 4 4), Unlink (Callable 4 4)]. \<not> is_resolution x"
    by simp
  from outcome_stable_without_resolution
         [OF r n, of init_world False "None :: nat option" "Obj 2" "Exc 3"]
  have "ar_value (fst (run_ops [Rawlink (Callable 4 4), Unlink (Callable 4 4)]
          (fst (set_value (Obj 1) (init_AsyncResult 0) init_world), init_world)))
        = ar_value (fst (set_value (Obj 1) (init_AsyncResult 0) init_world))"
    and "ar_exception (fst (run_ops [Rawlink (Callable 4 4), Unlink (Callable 4 4)]
          (fst (set_value (Obj 1) (init_AsyncResult 0) init_world), init_world)))
        = ar_exception (fst (set_value (Obj 1) (init_AsyncResult 0) init_world))"
    by blast+
  with r show ?thesis
    by (simp add: set_value_fields)
qed

section \<open>successful\<close>

text \<open>
  Claim C3: \<^verbatim>\<open>successful()\<close> is true exactly when the object is ready and was resolved
  with a value. Over every history of calls on a new object in which the objects
  given to \<^verbatim>\<open>set_exception\<close> are error objects (anything but \<^verbatim>\<open>None\<close>),
  \<^verbatim>\<open>successful()\<close> holds if and only if the object is ready and the last resolution is
  a \<^verbatim>\<open>set\<close>; after \<^verbatim>\<open>set_exception(e)\<close> with such an \<open>e\<close> it is false, whatever the
  object held; on a new object it is false.
\<close>

theorem successful_iff_resolved_with_value:
  "(\<forall>e. Set_exception e \<in> set ops \<longrightarrow> e \<noteq> PyNone) \<Longrightarrow>
   (successful (fst (run_ops ops (init_AsyncResult r, w))) \<longleftrightarrow>
      ready (fst (run_ops ops (init_AsyncResult r, w))) \<and>
      (\<exists>v. last_resolution ops = Some (Set v)))
   \<and> (e \<noteq> PyNone \<longrightarrow> \<not> successful (fst (set_exception e self w')))
   \<and> \<not> successful (init_AsyncResult r)"
proof (intro conjI impI)
  assume noNone: "\<forall>e. Set_exception e \<in> set ops \<longrightarrow> e \<noteq> PyNone"
  show "successful (fst (run_ops ops (init_AsyncResult r, w))) \<longleftrightarrow>
      ready (fst (run_ops ops (init_AsyncResult r, w))) \<and>
      (\<exists>v. last_resolution ops = Some (Set v))"
  proof (cases "last_resolution ops")
    case None
    then show ?thesis
      by (simp add: successful_def ready_def run_ops_exception init_AsyncResult_def)
  next
    case (Some x)
    from last_resolution_mem [OF Some] have mem: "x \<in> set ops" and res: "is_resolution x"
      by simp_all
    show ?thesis
    proof (cases x)
      case (Set v)
      with Some show ?thesis
        by (simp add: successful_def ready_def run_ops_exception)
    next
      case (Set_exception e)
      with mem noNone have "e \<noteq> PyNone" by blast
      with Some Set_exception show ?thesis
        by (simp add: successful_def ready_def run_ops_exception)
    next
      case (Rawlink c)
      with res show ?thesis by simp
    next
      case (Unlink c)
      with res show ?thesis by simp
    qed
  qed
next
  assume "e \<noteq> PyNone"
  then show "\<not> successful (fst (set_exception e self w'))"
    by (simp add: successful_def set_exception_fields)
next
  show "\<not> successful (init_AsyncResult r)"
    by (simp add: successful_def init_AsyncResult_def)
qed

theorem successful_iff_resolved_with_value_witness:
  "successful (fst (run_ops [Rawlink (Callable 1 1), Set_exception (Exc 3), Set (Obj 5)]
      (init_AsyncResult 0, init_world)))
   \<and> \<not> successful (fst (run_ops [Set (Obj 5), Set_exception (Exc 3)]
      (init_AsyncResult 0, init_world)))
   \<and> \<not> successful (fst (set_exception (Exc 3) (init_AsyncResult 0) init_world))"
  using successful_iff_resolved_with_value
          [of "[Rawlink (Callable 1 1), Set_exception (Exc 3), Set (Obj 5)]" 0 init_world
              "Exc 3" "init_AsyncResult 0" init_world]
        successful_iff_resolved_with_value
          [of "[Set (Obj 5), Set_exception (Exc 3)]" 0 init_world
              "Exc 3" "init_AsyncResult 0" init_world]
  by (simp add: eval_defs)

section \<open>get and get_nowait\<close>

text \<open>
  Claim C4: \<^verbatim>\<open>get(block, timeout)\<close> returns the stored value when the object holds a
  value and raises the stored error object itself when it holds one, both without
  entering the condition variable; on a pending object it raises \<^verbatim>\<open>TimeoutError\<close> at
  once when \<^verbatim>\<open>block\<close> is false; whenever the call comes back, what it raises is the
  \<^verbatim>\<open>TimeoutError\<close> built by \<^verbatim>\<open>get\<close> if and only if the object is pending at the end
  of the wait window; and \<^verbatim>\<open>get_nowait()\<close> is \<^verbatim>\<open>get(block=False)\<close>. An error that
  \<^verbatim>\<open>get\<close> raises from the slot is the stored object (\<open>Raised\<close>), told apart from the
  \<open>TimeoutError\<close> that \<^verbatim>\<open>get\<close> builds itself.
\<close>

theorem get_spec:
  "(ar_exception self = Stored PyNone \<longrightarrow>
      get self block (timeout :: 't option) = Return (Inr (ar_value self)))
   \<and> (ar_exception self = Stored (Exc r) \<longrightarrow>
      get self block timeout = Return (Inl (Raised (Exc r))))
   \<and> (\<not> ready self \<longrightarrow> get self False timeout = Return (Inl TimeoutError))
   \<and> (\<not> ready self \<and> (notified env \<or> timeout \<noteq> None) \<longrightarrow>
        resume (get self True timeout) env =
          Some (if ready (at_wakeup env) then outcome (at_wakeup env) else Inl TimeoutError))
   \<and> (resume (get self block timeout) env = Some res \<longrightarrow>
        (res = Inl TimeoutError \<longleftrightarrow> \<not> ready (window_end self block env)))
   \<and> (get_nowait self :: ('t, error + pyobj) blocking) = get self False None"
proof (intro conjI impI)
  assume "ar_exception self = Stored PyNone"
  then show "get self block timeout = Return (Inr (ar_value self))"
    by (simp add: get_def outcome_def)
next
  assume "ar_exception self = Stored (Exc r)"
  then show "get self block timeout = Return (Inl (Raised (Exc r)))"
    by (simp add: get_def outcome_def)
next
  assume "\<not> ready self"
  then show "get self False timeout = Return (Inl TimeoutError)"
    by (simp add: get_def ready_def)
next
  assume "\<not> ready self \<and> (notified env \<or> timeout \<noteq> None)"
  then show "resume (get self True timeout) env =
          Some (if ready (at_wakeup env) then outcome (at_wakeup env) else Inl TimeoutError)"
    by (auto simp: get_def ready_def)
next
  assume res: "resume (get self block timeout) env = Some res"
  have out: "\<And>s. outcome s = Inl TimeoutError \<longleftrightarrow> \<not> ready s"
    by (simp add: outcome_def ready_def split: slot.splits pyobj.splits)
  show "res = Inl TimeoutError \<longleftrightarrow> \<not> ready (window_end self block env)"
  proof (cases "ready self")
    case True
    with res have "res = outcome self"
      by (simp add: get_def ready_def)
    with True show ?thesis
      by (simp add: window_end_def out)
  next
    case False
    show ?thesis
    proof (cases block)
      case True
      with False res
      have "res = (if ready (at_wakeup env) then outcome (at_wakeup env) else Inl TimeoutError)"
        by (auto simp: get_def ready_def split: if_splits)
      with False True show ?thesis
        by (simp add: window_end_def out)
    next
      case nb: False
      with False res have "res = Inl TimeoutError"
        by (simp add: get_def ready_def)
      with False nb show ?thesis
        by (simp add: window_end_def)
    qed
  qed
next
  show "(get_nowait self :: ('t, error + pyobj) blocking) = get self False None"
    by (simp add: get_nowait_def)
qed

theorem get_spec_witness:
  "get (fst (set_value (Obj 1) (init_AsyncResult 0) init_world)) True (None :: nat option)
     = Return (Inr (Obj 1))
   \<and> get (fst (set_exception (Exc 3) (init_AsyncResult 0) init_world)) True (None :: nat option)
     = Return (Inl (Raised (Exc 3)))
   \<and> get (init_AsyncResult 0) False (None :: nat option) = Return (Inl TimeoutError)
   \<and> resume (get (init_AsyncResult 0) True (Some (1 :: nat)))
        \<lparr>notified = False, at_wakeup = init_AsyncResult 0\<rparr> = Some (Inl TimeoutError)
   \<and> resume (get (init_AsyncResult 0) True (None :: nat option))
        \<lparr>notified = True, at_wakeup = fst (set_value (Obj 1) (init_AsyncResult 0) init_world)\<rparr>
     = Some (Inr (Obj 1))"
  using get_spec [of "fst (set_value (Obj 1) (init_AsyncResult 0) init_world)" True
                     "None :: nat option" 3
                     "\<lparr>notified = False, at_wakeup = init_AsyncResult 0\<rparr>" "Inr (Obj 1)"]
        get_spec [of "fst (set_exception (Exc 3) (init_AsyncResult 0) init_world)" True
                     "None :: nat option" 3
                     "\<lparr>notified = False, at_wakeup = init_AsyncResult 0\<rparr>" "Inl (Raised (Exc 3))"]
        get_spec [of "init_AsyncResult 0" True "Some (1 :: nat)" 3
                     "\<lparr>notified = False, at_wakeup = init_AsyncResult 0\<rparr>" "Inl TimeoutError"]
        get_spec [of "init_AsyncResult 0" True "None :: nat option" 3
                     "\<lparr>notified = True,
                        at_wakeup = fst (set_value (Obj 1) (init_AsyncResult 0) init_world)\<rparr>"
                     "Inr (Obj 1)"]
  by (simp add: eval_defs get_def)

section \<open>wait\<close>

text \<open>
  Claim C5 says that \<^verbatim>\<open>wait(timeout)\<close> on an object that is already ready returns
  true without waiting out the timeout. The code enters \<^verbatim>\<open>self._condition.wait(timeout)\<close>
  before it looks at the object: on an object resolved by \<^verbatim>\<open>set\<close>, \<^verbatim>\<open>wait\<close> with a
  timeout is suspended for that timeout, and \<^verbatim>\<open>wait()\<close> with no timeout and no later
  notification never comes back, where \<^verbatim>\<open>get()\<close> on the same object returns the value
  at once.
\<close>

theorem wait_on_ready_blocks:
  "ready (fst (set_value (Obj 1) (init_AsyncResult 0) init_world))
   \<and> wait (fst (set_value (Obj 1) (init_AsyncResult 0) init_world)) (Some (10 :: nat))
       \<noteq> Return True
   \<and> resume (wait (fst (set_value (Obj 1) (init_AsyncResult 0) init_world)) (None :: nat option))
        \<lparr>notified = False, at_wakeup = fst (set_value (Obj 1) (init_AsyncResult 0) init_world)\<rparr>
       = None
   \<and> resume (get (fst (set_value (Obj 1) (init_AsyncResult 0) init_world)) True (None :: nat option))
        \<lparr>notified = False, at_wakeup = fst (set_value (Obj 1) (init_AsyncResult 0) init_world)\<rparr>
       = Some (Inr (Obj 1))"
  by (simp add: eval_defs get_def wait_def)

section \<open>rawlink\<close>

text \<open>
  Claim C6 as stated: on a pending object \<^verbatim>\<open>rawlink\<close> appends the callback unless
  that same callback reference is already in the list. The test is
  \<^verbatim>\<open>callback not in self._callbacks\<close>, which compares with \<^verbatim>\<open>==\<close>: after the bound
  method \<open>Callable 1 7\<close> is registered, the distinct object \<open>Callable 2 7\<close> that
  compares equal to it (another bound method of the same function on the same
  object) is not appended, although its reference is not in the list.
\<close>

theorem rawlink_equal_callback_counterexample:
  "\<not> ready (init_AsyncResult 0)
   \<and> ar_callbacks (fst (rawlink (Callable 1 7) (init_AsyncResult 0) init_world)) = [Callable 1 7]
   \<and> ident (Callable 2 7)
       \<notin> ident ` set (ar_callbacks (fst (rawlink (Callable 1 7) (init_AsyncResult 0) init_world)))
   \<and> ar_callbacks (fst (run_ops [Rawlink (Callable 1 7), Rawlink (Callable 2 7)]
        (init_AsyncResult 0, init_world))) = [Callable 1 7]
   \<and> ar_callbacks (fst (run_ops [Rawlink (Callable 1 7), Rawlink (Callable 2 7)]
        (init_AsyncResult 0, init_world))) \<noteq> [Callable 1 7, Callable 2 7]"
  by (simp add: eval_defs)

text \<open>
  Claim C6, amended: on a ready object \<^verbatim>\<open>rawlink(callback)\<close> leaves the object (and
  so its list of callbacks) as it is, runs nothing itself and appends to the
  completion queue one lambda that, whenever it is called, whatever calls have been
  made on any \<^verbatim>\<open>AsyncResult\<close> in between, calls \<open>callback\<close> with the object; on a
  pending object it appends \<open>callback\<close> unless the list holds the same object or one
  that compares equal to it, and touches nothing else, so a second \<^verbatim>\<open>rawlink\<close> of
  the same callback, or of one equal to it, changes nothing.
\<close>

theorem rawlink_spec:
  "(ready self \<longrightarrow>
      fst (rawlink callback self w) = self
      \<and> (\<exists>f. completion_queue (handler (snd (rawlink callback self w)))
                 = completion_queue (handler w) @ [Work f]
             \<and> (\<forall>steps. call_of (cells (later_calls steps (snd (rawlink callback self w)))) f
                   = Some (Call_callback callback (self_ref self))))
      \<and> executed (snd (rawlink callback self w)) = executed w
      \<and> callback_queue (handler (snd (rawlink callback self w))) = callback_queue (handler w)
      \<and> session_queue (handler (snd (rawlink callback self w))) = session_queue (handler w))
   \<and> (\<not> ready self \<longrightarrow>
      ar_callbacks (fst (rawlink callback self w))
        = (if contains (ar_callbacks self) callback then ar_callbacks self
           else ar_callbacks self @ [callback])
      \<and> snd (rawlink callback self w) = w
      \<and> rawlink callback (fst (rawlink callback self w)) (snd (rawlink callback self w))
          = rawlink callback self w
      \<and> (py_eq callback callback' \<longrightarrow>
           rawlink callback' (fst (rawlink callback self w)) (snd (rawlink callback self w))
             = rawlink callback self w))"
proof (intro conjI impI)
  assume r: "ready self"
  let ?w' = "snd (rawlink callback self w)"
  let ?f = "Completion_lambda (length (cells w)) (self_ref self)"
  have cells': "cells ?w' = cells w @ [Some callback]"
    using r by (simp add: rawlink_def put_completion_def)
  show "fst (rawlink callback self w) = self"
    using r by (simp add: rawlink_def)
  show "executed ?w' = executed w"
    using r by (simp add: rawlink_def put_completion_def)
  show "callback_queue (handler ?w') = callback_queue (handler w)"
    using r by (simp add: rawlink_def put_completion_def)
  show "session_queue (handler ?w') = session_queue (handler w)"
    using r by (simp add: rawlink_def put_completion_def)
  have q: "completion_queue (handler ?w') = completion_queue (handler w) @ [Work ?f]"
    using r by (simp add: rawlink_def put_completion_def)
  have stable: "call_of (cells (later_calls steps ?w')) ?f
                  = Some (Call_callback callback (self_ref self))" for steps
  proof -
    have lt: "length (cells w) < length (cells ?w')"
      by (simp add: cells')
    from later_calls_cells [OF lt, of steps]
    have "length (cells w) < length (cells (later_calls steps ?w'))"
      and "cells (later_calls steps ?w') ! length (cells w) = Some callback"
      by (simp_all add: cells')
    then show ?thesis by simp
  qed
  from q stable
  show "\<exists>f. completion_queue (handler ?w') = completion_queue (handler w) @ [Work f]
             \<and> (\<forall>steps. call_of (cells (later_calls steps ?w')) f
                   = Some (Call_callback callback (self_ref self)))"
    by blast
next
  assume p: "\<not> ready self"
  show "ar_callbacks (fst (rawlink callback self w))
        = (if contains (ar_callbacks self) callback then ar_callbacks self
           else ar_callbacks self @ [callback])"
    using p by (simp add: rawlink_def)
  show "snd (rawlink callback self w) = w"
    using p by (simp add: rawlink_def)
  have refl: "py_eq callback callback"
    by (simp add: py_eq_def)
  show "rawlink callback (fst (rawlink callback self w)) (snd (rawlink callback self w))
          = rawlink callback self w"
    using p refl by (simp add: rawlink_def ready_def contains_snoc)
next
  assume p: "\<not> ready self" and eq: "py_eq callback callback'"
  have trans: "contains (ar_callbacks self) callback \<Longrightarrow> contains (ar_callbacks self) callback'"
    using eq by (auto simp: contains_def py_eq_def list_ex_iff)
  show "rawlink callback' (fst (rawlink callback self w)) (snd (rawlink callback self w))
             = rawlink callback self w"
    using p eq trans by (auto simp: rawlink_def ready_def contains_snoc)
qed

theorem rawlink_spec_witness:
  "fst (rawlink (Callable 5 5) (fst (set_value (Obj 1) (init_AsyncResult 0) init_world)) init_world)
     = fst (set_value (Obj 1) (init_AsyncResult 0) init_world)
   \<and> executed (snd (rawlink (Callable 5 5)
        (fst (set_value (Obj 1) (init_AsyncResult 0) init_world)) init_world)) = []
   \<and> completion_queue (handler (snd (rawlink (Callable 5 5)
        (fst (set_value (Obj 1) (init_AsyncResult 0) init_world)) init_world)))
       = [Work (Completion_lambda 0 0)]
   \<and> call_of (cells (later_calls
          [(Rawlink (Callable 9 9), fst (set_value (Obj 1) (init_AsyncResult 0) init_world))]
          (snd (rawlink (Callable 5 5)
             (fst (set_value (Obj 1) (init_AsyncResult 0) init_world)) init_world))))
        (Completion_lambda 0 0)
       = Some (Call_callback (Callable 5 5) 0)
   \<and> ar_callbacks (fst (rawlink (Callable 5 5) (init_AsyncResult 0) init_world)) = [Callable 5 5]
   \<and> py_eq (Callable 5 5) (Callable 6 5)
   \<and> rawlink (Callable 6 5) (fst (rawlink (Callable 5 5) (init_AsyncResult 0) init_world))
        (snd (rawlink (Callable 5 5) (init_AsyncResult 0) init_world))
       = rawlink (Callable 5 5) (init_AsyncResult 0) init_world"
  using rawlink_spec [of "fst (set_value (Obj 1) (init_AsyncResult 0) init_world)"
                         "Callable 5 5" init_world "Callable 6 5"]
        rawlink_spec [of "init_AsyncResult 0" "Callable 5 5" init_world "Callable 6 5"]
  by (simp add: eval_defs later_calls_def)

section \<open>stop\<close>

text \<open>
  Claim C7 as stated: \<^verbatim>\<open>stop\<close> joins the worker threads in the reverse of the order
  in which \<^verbatim>\<open>start\<close> created them. \<^verbatim>\<open>stop\<close> reverses the list and then pops from
  its end, which is the order of creation: after \<^verbatim>\<open>start\<close> on a new handler the
  joins are completion, callback, session, as created.
\<close>

theorem stop_join_order_counterexample:
  "workers (start init_handler)
     = [Thread Completion_queue, Thread Callback_queue, Thread Session_queue]
   \<and> joined (snd (stop (start init_handler)))
       = [Thread Completion_queue, Thread Callback_queue, Thread Session_queue]
   \<and> joined (snd (stop (start init_handler))) \<noteq> rev (workers (start init_handler))"
  by (simp add: stop_running_eq start_running start_workers init_handler_def)

text \<open>
  Claim C7, amended: on a running handler \<^verbatim>\<open>stop\<close> puts one stop marker on each of
  the three queues, then joins the worker threads in the order of the list of
  workers, which is the order in which \<^verbatim>\<open>start\<close> created them, and leaves the
  handler marked stopped, with no workers and three empty queues. A worker whose
  queue holds a stop marker makes exactly the calls of the items in front of the
  marker, takes nothing from behind it and does end (so the join returns); what is
  behind the marker is still on the old queue when the worker breaks, and goes with
  it.
\<close>

theorem stop_steps:
  "running h \<Longrightarrow>
     snd (stop h) = [Put Completion_queue STOP, Put Callback_queue STOP, Put Session_queue STOP]
                     @ map Join (workers h)
     \<and> fst (stop h) = h\<lparr>callback_queue := [], session_queue := [], completion_queue := [],
                          running := False, workers := []\<rparr>
     \<and> (\<not> running h0 \<longrightarrow>
          workers (start h0)
            = workers h0 @ [Thread Completion_queue, Thread Callback_queue, Thread Session_queue])
     \<and> (STOP \<notin> set q \<longrightarrow>
          fst (thread_worker behaviour cs (q @ STOP # late)) = fst (thread_worker behaviour cs q)
          \<and> snd (snd (thread_worker behaviour cs (q @ STOP # late))) \<noteq> Blocked_in_get
          \<and> (snd (snd (thread_worker behaviour cs (q @ STOP # late))) = Break \<longrightarrow>
               fst (snd (thread_worker behaviour cs (q @ STOP # late))) = late))"
  using thread_worker_behind_stop [of q behaviour cs late]
  by (simp add: stop_running_eq start_workers)

theorem stop_steps_witness:
  "running (start init_handler)
   \<and> snd (stop (start init_handler))
       = [Put Completion_queue STOP, Put Callback_queue STOP, Put Session_queue STOP,
          Join (Thread Completion_queue), Join (Thread Callback_queue),
          Join (Thread Session_queue)]
   \<and> fst (stop (start init_handler)) = init_handler
   \<and> thread_worker (\<lambda>c. Returns) []
        ([Work (Dispatch_lambda \<lparr>type = ''watch'', func = 1, args = []\<rparr>)]
           @ STOP # [Work (Dispatch_lambda \<lparr>type = ''watch'', func = 2, args = []\<rparr>)])
       = ([Call_func 1 []],
          [Work (Dispatch_lambda \<lparr>type = ''watch'', func = 2, args = []\<rparr>)], Break)"
proof -
  have r: "running (start init_handler)"
    by (rule start_running)
  from stop_steps [OF r, of init_handler
         "[Work (Dispatch_lambda \<lparr>type = ''watch'', func = 1, args = []\<rparr>)]"
         "\<lambda>c. Returns" "[]"
         "[Work (Dispatch_lambda \<lparr>type = ''watch'', func = 2, args = []\<rparr>)]"]
  have "snd (stop (start init_handler))
          = [Put Completion_queue STOP, Put Callback_queue STOP, Put Session_queue STOP]
              @ map Join (workers (start init_handler))"
    and "fst (stop (start init_handler))
          = (start init_handler)\<lparr>callback_queue := [], session_queue := [],
               completion_queue := [], running := False, workers := []\<rparr>"
    by blast+
  with r show ?thesis
    by (simp add: start_def init_handler_def create_thread_worker_def)
qed

section \<open>dispatch_callback\<close>

text \<open>
  Claim C8: \<^verbatim>\<open>dispatch_callback\<close> appends the invocation \<^verbatim>\<open>callback.func(*callback.args)\<close>
  to the session queue exactly when \<^verbatim>\<open>callback.type\<close> is \<^verbatim>\<open>'session'\<close> and to the
  callback queue otherwise, and touches nothing else; it does so on every handler,
  running or not, and has no failing branch.
\<close>

theorem dispatch_callback_spec:
  "(type callback = ''session'' \<longrightarrow>
      session_queue (dispatch_callback callback h)
        = session_queue h @ [Work (Dispatch_lambda callback)]
      \<and> callback_queue (dispatch_callback callback h) = callback_queue h)
   \<and> (type callback \<noteq> ''session'' \<longrightarrow>
      callback_queue (dispatch_callback callback h)
        = callback_queue h @ [Work (Dispatch_lambda callback)]
      \<and> session_queue (dispatch_callback callback h) = session_queue h)
   \<and> completion_queue (dispatch_callback callback h) = completion_queue h
   \<and> running (dispatch_callback callback h) = running h
   \<and> workers (dispatch_callback callback h) = workers h
   \<and> call_of cs (Dispatch_lambda callback) = Some (Call_func (func callback) (args callback))"
  by (simp add: dispatch_callback_def)

theorem dispatch_callback_spec_witness:
  "session_queue (dispatch_callback \<lparr>type = ''session'', func = 1, args = [Obj 2]\<rparr> init_handler)
     = [Work (Dispatch_lambda \<lparr>type = ''session'', func = 1, args = [Obj 2]\<rparr>)]
   \<and> callback_queue (dispatch_callback \<lparr>type = ''session'', func = 1, args = [Obj 2]\<rparr> init_handler)
     = []
   \<and> callback_queue (dispatch_callback \<lparr>type = ''watch'', func = 1, args = [Obj 2]\<rparr>
        (start init_handler))
     = [Work (Dispatch_lambda \<lparr>type = ''watch'', func = 1, args = [Obj 2]\<rparr>)]
   \<and> session_queue (dispatch_callback \<lparr>type = ''watch'', func = 1, args = [Obj 2]\<rparr>
        (start init_handler))
     = []"
  using dispatch_callback_spec
          [of "\<lparr>type = ''session'', func = 1, args = [Obj 2]\<rparr>" init_handler "[]"]
        dispatch_callback_spec
          [of "\<lparr>type = ''watch'', func = 1, args = [Obj 2]\<rparr>" "start init_handler" "[]"]
  by (simp add: init_handler_def start_def spawn_workers_fields)

section \<open>start and stop, repeated\<close>

text \<open>
  Claim C9: \<^verbatim>\<open>start\<close> on a running handler and \<^verbatim>\<open>stop\<close> on a stopped handler return
  the handler as it is (flag, workers and the three queues) and do nothing on the
  way; so a second \<^verbatim>\<open>start\<close> right after a \<^verbatim>\<open>start\<close> and a second \<^verbatim>\<open>stop\<close> right
  after a \<^verbatim>\<open>stop\<close> change nothing, from any handler.
\<close>

theorem start_stop_idempotent:
  "(running h \<longrightarrow> start h = h)
   \<and> (\<not> running h \<longrightarrow> stop h = (h, []))
   \<and> start (start h) = start h
   \<and> stop (fst (stop h)) = (fst (stop h), [])"
proof (intro conjI impI)
  assume "running h"
  then show "start h = h" by (simp add: start_def)
next
  assume "\<not> running h"
  then show "stop h = (h, [])" by (simp add: stop_def)
next
  show "start (start h) = start h"
    using start_running [of h] by (simp add: start_def)
next
  have "\<not> running (fst (stop h))"
    by (cases "running h") (simp_all add: stop_running_eq, simp add: stop_def)
  then show "stop (fst (stop h)) = (fst (stop h), [])"
    by (simp add: stop_def)
qed

theorem start_stop_idempotent_witness:
  "running (start init_handler)
   \<and> start (start init_handler) = start init_handler
   \<and> workers (start (start init_handler))
       = [Thread Completion_queue, Thread Callback_queue, Thread Session_queue]
   \<and> \<not> running init_handler
   \<and> stop init_handler = (init_handler, [])"
  using start_stop_idempotent [of "start init_handler"] start_stop_idempotent [of init_handler]
  by (simp add: start_def init_handler_def create_thread_worker_def)

section \<open>The exception property\<close>

text \<open>
  Claim C10: the property \<^verbatim>\<open>exception\<close> is \<^verbatim>\<open>None\<close> on a pending object and on an
  object resolved with a value alike, so it alone does not tell them apart; over
  every history of calls on a new object, it is not \<^verbatim>\<open>None\<close> only when the last
  resolution is a \<^verbatim>\<open>set_exception\<close> of an object other than \<^verbatim>\<open>None\<close>, and then it is
  that object.
\<close>

theorem exception_accessor:
  "exception (init_AsyncResult r) = PyNone
   \<and> exception (fst (set_value v self w')) = PyNone
   \<and> (last_resolution ops = None \<longrightarrow>
        \<not> ready (fst (run_ops ops (init_AsyncResult r, w)))
        \<and> exception (fst (run_ops ops (init_AsyncResult r, w))) = PyNone)
   \<and> ((\<exists>v. last_resolution ops = Some (Set v)) \<longrightarrow>
        successful (fst (run_ops ops (init_AsyncResult r, w)))
        \<and> exception (fst (run_ops ops (init_AsyncResult r, w))) = PyNone)
   \<and> (exception (fst (run_ops ops (init_AsyncResult r, w))) \<noteq> PyNone \<longrightarrow>
        (\<exists>e. e \<noteq> PyNone \<and> last_resolution ops = Some (Set_exception e)
             \<and> exception (fst (run_ops ops (init_AsyncResult r, w))) = e))"
proof (intro conjI impI)
  show "exception (init_AsyncResult r) = PyNone"
    by (simp add: exception_def init_AsyncResult_def)
  show "exception (fst (set_value v self w')) = PyNone"
    by (simp add: exception_def set_value_fields)
next
  assume "last_resolution ops = None"
  then show "\<not> ready (fst (run_ops ops (init_AsyncResult r, w)))"
    and "exception (fst (run_ops ops (init_AsyncResult r, w))) = PyNone"
    by (simp_all add: ready_def exception_def run_ops_exception init_AsyncResult_def)
next
  assume "\<exists>v. last_resolution ops = Some (Set v)"
  then show "successful (fst (run_ops ops (init_AsyncResult r, w)))"
    and "exception (fst (run_ops ops (init_AsyncResult r, w))) = PyNone"
    by (auto simp: successful_def exception_def run_ops_exception)
next
  assume nz: "exception (fst (run_ops ops (init_AsyncResult r, w))) \<noteq> PyNone"
  show "\<exists>e. e \<noteq> PyNone \<and> last_resolution ops = Some (Set_exception e)
             \<and> exception (fst (run_ops ops (init_AsyncResult r, w))) = e"
  proof (cases "last_resolution ops")
    case None
    with nz show ?thesis
      by (simp add: exception_def run_ops_exception init_AsyncResult_def)
  next
    case (Some x)
    from last_resolution_mem [OF Some] have res: "is_resolution x" by simp
    from nz Some res show ?thesis
      by (cases x) (simp_all add: exception_def run_ops_exception)
  qed
qed

theorem exception_accessor_witness:
  "exception (fst (run_ops [Rawlink (Callable 1 1)] (init_AsyncResult 0, init_world))) = PyNone
   \<and> exception (fst (run_ops [Rawlink (Callable 1 1), Set (Obj 5)] (init_AsyncResult 0, init_world))) = PyNone
   \<and> exception (fst (run_ops [Rawlink (Callable 1 1), Set_exception (Exc 3)] (init_AsyncResult 0, init_world)))
       = Exc 3
   \<and> last_resolution [Rawlink (Callable 1 1), Set_exception (Exc 3)] = Some (Set_exception (Exc 3))"
  using exception_accessor
          [of 0 "Obj 5" "init_AsyncResult 0" init_world "[Rawlink (Callable 1 1)]" init_world]
        exception_accessor
          [of 0 "Obj 5" "init_AsyncResult 0" init_world "[Rawlink (Callable 1 1), Set (Obj 5)]" init_world]
        exception_accessor
          [of 0 "Obj 5" "init_AsyncResult 0" init_world "[Rawlink (Callable 1 1), Set_exception (Exc 3)]"
              init_world]
  by (simp add: eval_defs)

end
